theory Spec2Isabelle
  imports Main "HOL-Library.Word"
begin

section \<open>Data model of gstsystemclock.c\<close>

text \<open>
  Times are \<open>GstClockTime\<close> (\<open>guint64\<close>, nanoseconds); differences are
  \<open>GstClockTimeDiff\<close> (\<open>gint64\<close>). Both are 64-bit words here: \<open>+\<close> and \<open>-\<close>
  wrap, and a difference is compared as a signed number (\<open>\<le>s\<close>, \<open><s\<close>).
\<close>

type_synonym GstClockTime = "64 word"
type_synonym GstClockTimeDiff = "64 word"

text \<open>The values of \<open>GstClockReturn\<close> that gstsystemclock.c names.\<close>

datatype GstClockReturn =
    GST_CLOCK_OK
  | GST_CLOCK_EARLY
  | GST_CLOCK_UNSCHEDULED
  | GST_CLOCK_BUSY
  | GST_CLOCK_ERROR
  | GST_CLOCK_DONE

datatype GstClockEntryType = GST_CLOCK_ENTRY_SINGLE | GST_CLOCK_ENTRY_PERIODIC

text \<open>
  \<open>GstClockEntryImpl\<close>: the fields of the entry that the system clock reads or writes.
  \<open>func\<close> records whether a callback is set; the lock and the condition of the entry
  appear as effects (see \<open>effect\<close>), not as fields.
\<close>

record GstClockEntry =
  type :: GstClockEntryType
  time :: GstClockTime
  interval :: GstClockTime
  status :: GstClockReturn
  func :: bool
  initialized :: bool

text \<open>
  What the preprocessor fixes per platform: \<open>CLOCK_MIN_WAIT_TIME\<close> is 100 with futexes,
  500 with pthread conditions, \<open>GST_USECOND\<close> or \<open>GST_MSECOND\<close> with GCond;
  \<open>HAVE_CLOCK_NANOSLEEP\<close> selects the code between the \<open>#ifdef\<close>s of the wait loop.
\<close>

record platform =
  CLOCK_MIN_WAIT_TIME :: GstClockTimeDiff
  HAVE_CLOCK_NANOSLEEP :: bool

text \<open>
  Modelled from the spec: the time constants and \<open>GST_CLOCK_DIFF\<close> come from gstclock.h,
  which is not among the sources. Times are in nanoseconds (so a microsecond is 1000 and a
  millisecond 1000000) and the difference is \<open>deadline - now\<close>, here the 64-bit
  subtraction \<open>e - s\<close>.
\<close>

definition GST_USECOND :: GstClockTimeDiff where
  "GST_USECOND = 1000"

definition GST_MSECOND :: GstClockTimeDiff where
  "GST_MSECOND = 1000000"

definition GST_CLOCK_DIFF :: "GstClockTime \<Rightarrow> GstClockTime \<Rightarrow> GstClockTimeDiff" where
  "GST_CLOCK_DIFF s e = e - s"

definition ensure_entry_initialized :: "GstClockEntry \<Rightarrow> GstClockEntry" where
  "ensure_entry_initialized entry_impl =
     (if \<not> initialized entry_impl then entry_impl\<lparr>initialized := True\<rparr> else entry_impl)"


section \<open>The environment of a wait\<close>

text \<open>
  The wait runs with the entry lock released at three places: while it reads the time,
  while it sleeps in \<open>clock_nanosleep\<close>, and inside the timed wait on the entry's
  condition. What the thread finds when it holds the lock again is given by the
  environment: the two clock readings, the return value of the sleep or wait, and the
  status another thread stored in the entry meanwhile (\<open>None\<close> when nobody did).
\<close>

record time_read =
  now :: GstClockTime
  monotonic_time :: "64 word"
  relocked :: "GstClockReturn option"

record wakeup =
  nanosleep_ret :: int
  wait_until_ret :: bool
  woken :: "GstClockReturn option"
  reread :: time_read

fun observe :: "GstClockReturn option \<Rightarrow> GstClockReturn \<Rightarrow> GstClockReturn" where
  "observe None s = s"
| "observe (Some s') s = s'"

text \<open>
  The effects of a wait, in program order. Debug logging is left out; the error log
  \<open>unexpected status\<close> is kept.
\<close>

datatype effect =
    EntryLock
  | EntryUnlock
  | GetTime
  | WriteJitter GstClockTimeDiff
  | ClockNanosleep "64 word"
  | WaitUntil "64 word"
  | LogUnexpectedStatus GstClockReturn

text \<open>
  The result of a wait: \<open>ret = None\<close> when the events of the environment end while the
  thread is still blocked in the sleep or the timed wait.
\<close>

record wait_result =
  ret :: "GstClockReturn option"
  entry_out :: GstClockEntry
  log :: "effect list"

definition prepend :: "effect list \<Rightarrow> wait_result \<Rightarrow> wait_result" where
  "prepend l r = r\<lparr>log := l @ log r\<rparr>"


section \<open>gst\_system\_clock\_id\_wait\_jitter\_unlocked\<close>

text \<open>
  One pass through the body of \<open>while (TRUE)\<close>. \<open>Done r s\<close>: the function leaves the
  loop and returns \<open>r\<close> with \<open>s\<close> stored in the entry. \<open>Again d m\<close>: the entry is
  \<open>GST_CLOCK_BUSY\<close> again and the loop restarts with the new \<open>diff\<close> and \<open>mono_ts\<close>.
\<close>

datatype outcome =
    Done GstClockReturn GstClockReturn
  | Again GstClockTimeDiff "64 word"

definition use_nanosleep :: "platform \<Rightarrow> GstClockTimeDiff \<Rightarrow> bool" where
  "use_nanosleep p diff = (HAVE_CLOCK_NANOSLEEP p \<and> diff \<le>s 500 * GST_USECOND)"

text \<open>The effects up to the point where the thread blocks.\<close>

definition wait_call :: "platform \<Rightarrow> GstClockTimeDiff \<Rightarrow> 64 word \<Rightarrow> effect list" where
  "wait_call p diff mono_ts =
     (if use_nanosleep p diff then [EntryUnlock, ClockNanosleep (mono_ts * 1000 + diff)]
      else if HAVE_CLOCK_NANOSLEEP p \<and> diff <s 2 * GST_MSECOND
        then [WaitUntil (mono_ts * 1000 + (diff - 500 * GST_USECOND))]
      else [WaitUntil (mono_ts * 1000 + diff)])"

definition wait_return :: "platform \<Rightarrow> GstClockTimeDiff \<Rightarrow> effect list" where
  "wait_return p diff = (if use_nanosleep p diff then [EntryLock] else [])"

definition wait_iteration ::
  "platform \<Rightarrow> bool \<Rightarrow> GstClockTime \<Rightarrow> GstClockTimeDiff \<Rightarrow> 64 word \<Rightarrow> GstClockReturn
     \<Rightarrow> wakeup \<Rightarrow> effect list \<times> outcome" where
  "wait_iteration p restart entryt diff mono_ts st w =
     (let waitret = (if use_nanosleep p diff then nanosleep_ret w = 0 else wait_until_ret w);
          slept = wait_call p diff mono_ts @ wait_return p diff;
          status = observe (woken w) st
      in if status = GST_CLOCK_UNSCHEDULED then (slept, Done status status)
         else
           let err = (if status \<noteq> GST_CLOCK_BUSY then [LogUnexpectedStatus status] else [])
           in if waitret \<and> \<not> restart then (slept @ err, Done status GST_CLOCK_DONE)
              else
                let pre = slept @ err @ [EntryUnlock, GetTime, EntryLock];
                    status' = observe (relocked (reread w)) GST_CLOCK_DONE
                in if status' = GST_CLOCK_UNSCHEDULED then (pre, Done status' status')
                   else
                     let diff' = GST_CLOCK_DIFF (now (reread w)) entryt
                     in if diff' \<le>s CLOCK_MIN_WAIT_TIME p
                        then (pre, Done GST_CLOCK_OK GST_CLOCK_OK)
                        else (pre, Again diff' (monotonic_time (reread w))))"

fun wait_loop ::
  "platform \<Rightarrow> bool \<Rightarrow> GstClockEntry \<Rightarrow> GstClockTime \<Rightarrow> GstClockTimeDiff \<Rightarrow> 64 word
     \<Rightarrow> wakeup list \<Rightarrow> wait_result" where
  "wait_loop p restart e entryt diff mono_ts [] =
     \<lparr>ret = None, entry_out = e, log = wait_call p diff mono_ts\<rparr>"
| "wait_loop p restart e entryt diff mono_ts (w # ws) =
     (case wait_iteration p restart entryt diff mono_ts (status e) w of
        (l, Done r s) \<Rightarrow> \<lparr>ret = Some r, entry_out = e\<lparr>status := s\<rparr>, log = l\<rparr>
      | (l, Again diff' mono_ts') \<Rightarrow>
          prepend l (wait_loop p restart (e\<lparr>status := GST_CLOCK_BUSY\<rparr>) entryt diff' mono_ts' ws))"

text \<open>
  The function itself. \<open>jitter\<close> says whether the caller passed a non-null pointer;
  \<open>first\<close> is the time read at entry, \<open>ws\<close> the wake-ups of the loop.
\<close>

definition gst_system_clock_id_wait_jitter_unlocked ::
  "platform \<Rightarrow> GstClockEntry \<Rightarrow> bool \<Rightarrow> bool \<Rightarrow> time_read \<Rightarrow> wakeup list \<Rightarrow> wait_result" where
  "gst_system_clock_id_wait_jitter_unlocked p e jitter restart first ws =
     (let st = observe (relocked first) (status e);
          e1 = e\<lparr>status := st\<rparr>;
          relock = [EntryUnlock, GetTime, EntryLock]
      in if st = GST_CLOCK_UNSCHEDULED
         then \<lparr>ret = Some GST_CLOCK_UNSCHEDULED, entry_out = e1, log = relock\<rparr>
         else
           let entryt = time e1;
               diff = GST_CLOCK_DIFF (now first) entryt;
               pre = relock @ (if jitter then [WriteJitter (- diff)] else [])
           in if CLOCK_MIN_WAIT_TIME p <s diff
              then prepend pre (wait_loop p restart e1 entryt diff (monotonic_time first) ws)
              else if diff = 0
                then \<lparr>ret = Some GST_CLOCK_OK, entry_out = e1\<lparr>status := GST_CLOCK_OK\<rparr>, log = pre\<rparr>
                else \<lparr>ret = Some GST_CLOCK_EARLY, entry_out = e1\<lparr>status := GST_CLOCK_EARLY\<rparr>,
                       log = pre\<rparr>)"


section \<open>gst\_system\_clock\_id\_wait\_jitter\<close>

text \<open>
  The synchronous wait. The final unlock of the entry happens when the inner wait has
  returned.
\<close>

definition gst_system_clock_id_wait_jitter ::
  "platform \<Rightarrow> GstClockEntry \<Rightarrow> bool \<Rightarrow> time_read \<Rightarrow> wakeup list \<Rightarrow> wait_result" where
  "gst_system_clock_id_wait_jitter p e jitter first ws =
     (let e1 = ensure_entry_initialized e;
          st = status e1
      in if st = GST_CLOCK_UNSCHEDULED
         then \<lparr>ret = Some st, entry_out = e1, log = [EntryLock, EntryUnlock]\<rparr>
         else
           let err = (if st \<noteq> GST_CLOCK_OK then [LogUnexpectedStatus st] else []);
               r = gst_system_clock_id_wait_jitter_unlocked p (e1\<lparr>status := GST_CLOCK_BUSY\<rparr>)
                     jitter True first ws
           in r\<lparr>log := EntryLock # err @ log r @ (if ret r = None then [] else [EntryUnlock])\<rparr>)"

text \<open>Which effects write \<open>*jitter\<close>.\<close>

fun writes_jitter :: "effect \<Rightarrow> bool" where
  "writes_jitter (WriteJitter v) = True"
| "writes_jitter x = False"


section \<open>The clock and its queue\<close>

text \<open>
  An entry pointer is a number; \<open>mem\<close> holds the entries the pointers refer to. The
  other fields are those of \<open>GstSystemClockPrivate\<close>: \<open>thread\<close> says whether
  \<open>priv->thread\<close> is non-null, \<open>entries\<close> is the \<open>GList\<close> of pending entries.
  Reference counts are not modelled.
\<close>

type_synonym entry_id = nat

record sysclock =
  thread :: bool
  starting :: bool
  stopping :: bool
  entries :: "entry_id list"
  mem :: "entry_id \<Rightarrow> GstClockEntry"

text \<open>The wake-up signals a call sends, in program order.\<close>

datatype signal = ClockBroadcast | EntryBroadcast entry_id

definition set_entry :: "sysclock \<Rightarrow> entry_id \<Rightarrow> GstClockEntry \<Rightarrow> sysclock" where
  "set_entry c i e = c\<lparr>mem := (mem c)(i := e)\<rparr>"

text \<open>
  Modelled from the spec: \<open>gst_clock_id_compare_func\<close> (gstclock.c) and the GLib list
  functions \<open>g_list_insert_sorted\<close>, \<open>g_list_sort\<close> and \<open>g_list_remove\<close> are not among
  the sources. The spec's queue keeps ascending order on the deadline;
  \<open>insert_sorted\<close> places a new entry after the entries of equal deadline already
  present; \<open>resort\<close> sorts again, stable for equal deadlines; \<open>remove\<close> takes the
  entry out.
\<close>

definition gst_clock_id_compare_func :: "GstClockEntry \<Rightarrow> GstClockEntry \<Rightarrow> int" where
  "gst_clock_id_compare_func entry1 entry2 =
     (if time entry1 > time entry2 then 1
      else if time entry1 < time entry2 then - 1
      else 0)"

fun g_list_insert_sorted ::
  "entry_id list \<Rightarrow> entry_id \<Rightarrow> (entry_id \<Rightarrow> entry_id \<Rightarrow> int) \<Rightarrow> entry_id list" where
  "g_list_insert_sorted [] d cmp = [d]"
| "g_list_insert_sorted (x # xs) d cmp =
     (if cmp d x < 0 then d # x # xs else x # g_list_insert_sorted xs d cmp)"

definition g_list_sort :: "entry_id list \<Rightarrow> (entry_id \<Rightarrow> GstClockTime) \<Rightarrow> entry_id list" where
  "g_list_sort xs deadline = sort_key deadline xs"

definition g_list_remove :: "entry_id list \<Rightarrow> entry_id \<Rightarrow> entry_id list" where
  "g_list_remove xs d = remove1 d xs"

definition compare_in :: "sysclock \<Rightarrow> entry_id \<Rightarrow> entry_id \<Rightarrow> int" where
  "compare_in c i j = gst_clock_id_compare_func (mem c i) (mem c j)"


section \<open>gst\_system\_clock\_start\_async, \_id\_wait\_async, \_id\_unschedule\<close>

text \<open>
  \<open>spawned\<close> says whether \<open>g_thread_try_new\<close> succeeds, should it be called. After a
  successful start the function waits until the new thread has cleared \<open>starting\<close>,
  which is the first thing that thread does under the clock lock; the model returns
  the state after that.
\<close>

definition gst_system_clock_start_async :: "bool \<Rightarrow> sysclock \<Rightarrow> bool \<times> sysclock" where
  "gst_system_clock_start_async spawned c =
     (if thread c then (True, c)
      else if spawned then (True, c\<lparr>thread := True, starting := False\<rparr>)
      else (False, c\<lparr>starting := False\<rparr>))"

definition gst_system_clock_id_wait_async ::
  "bool \<Rightarrow> sysclock \<Rightarrow> entry_id \<Rightarrow> GstClockReturn \<times> sysclock \<times> signal list" where
  "gst_system_clock_id_wait_async spawned c entry =
     (case gst_system_clock_start_async spawned c of
        (False, c1) \<Rightarrow> (GST_CLOCK_ERROR, c1, [])
      | (True, c1) \<Rightarrow>
          let c2 = set_entry c1 entry (ensure_entry_initialized (mem c1 entry))
          in if status (mem c2 entry) = GST_CLOCK_UNSCHEDULED
             then (GST_CLOCK_UNSCHEDULED, c2, [])
             else
               let head = (case entries c2 of [] \<Rightarrow> None | h # _ \<Rightarrow> Some h);
                   c3 = c2\<lparr>entries := g_list_insert_sorted (entries c2) entry (compare_in c2)\<rparr>
               in if (case entries c3 of [] \<Rightarrow> False | d # _ \<Rightarrow> d = entry)
                  then (case head of
                          None \<Rightarrow> (GST_CLOCK_OK, c3, [ClockBroadcast])
                        | Some h \<Rightarrow>
                            if status (mem c3 h) = GST_CLOCK_BUSY
                            then (GST_CLOCK_OK, c3, [EntryBroadcast h])
                            else (GST_CLOCK_OK, c3, []))
                  else (GST_CLOCK_OK, c3, []))"

definition gst_system_clock_id_unschedule ::
  "sysclock \<Rightarrow> entry_id \<Rightarrow> sysclock \<times> signal list" where
  "gst_system_clock_id_unschedule c entry =
     (let c1 = set_entry c entry (ensure_entry_initialized (mem c entry));
          st = status (mem c1 entry);
          c2 = set_entry c1 entry ((mem c1 entry)\<lparr>status := GST_CLOCK_UNSCHEDULED\<rparr>)
      in (c2, if st = GST_CLOCK_BUSY then [EntryBroadcast entry] else []))"


section \<open>gst\_system\_clock\_async\_thread\<close>

text \<open>
  The thread is followed from one point where it takes the clock lock to the next, so
  that calls of other threads fall between its steps as they can in the program:
  \<^item> \<open>AtLoopHead\<close>: it holds the clock lock and is about to test \<open>stopping\<close> and the queue;
  \<^item> \<open>InWait entry requested\<close>: it has marked the head entry busy, read \<open>requested\<close>,
    released the clock lock and is inside the wait on the entry;
  \<^item> \<open>InCallback entry requested\<close>: the wait returned OK or EARLY, the entry is unlocked
    and the callback, if set, is running;
  \<^item> \<open>ToRemove entry\<close>: it is about to take the clock lock to remove the entry;
  \<^item> \<open>Exited\<close>: it left the loop.
\<close>

datatype dispatcher =
    AtLoopHead
  | InWait entry_id GstClockTime
  | InCallback entry_id GstClockTime
  | ToRemove entry_id
  | Exited

text \<open>
  One record per wait that ended with OK or EARLY: the entry, the local \<open>requested\<close>,
  and the time handed to the callback (\<open>entry->time\<close>) when \<open>func\<close> is set.
\<close>

record firing =
  fired_entry :: entry_id
  requested :: GstClockTime
  callback_time :: "GstClockTime option"

record system =
  clock :: sysclock
  worker :: dispatcher
  fired :: "firing list"

definition fire :: "system \<Rightarrow> sysclock \<Rightarrow> entry_id \<Rightarrow> GstClockTime \<Rightarrow> system" where
  "fire s c i req =
     s\<lparr>clock := c, worker := InCallback i req,
       fired := fired s @
         [\<lparr>fired_entry = i, requested = req,
           callback_time = (if func (mem c i) then Some (time (mem c i)) else None)\<rparr>]\<rparr>"

definition gst_system_clock_async_thread_step ::
  "platform \<Rightarrow> time_read \<Rightarrow> wakeup list \<Rightarrow> system \<Rightarrow> system" where
  "gst_system_clock_async_thread_step p first ws s =
     (let c = clock s
      in if \<not> thread c then s
         else case worker s of
           Exited \<Rightarrow> s
         | AtLoopHead \<Rightarrow>
             if stopping c then s\<lparr>worker := Exited\<rparr>
             else (case entries c of
                     [] \<Rightarrow> s
                   | i # _ \<Rightarrow>
                       if status (mem c i) = GST_CLOCK_UNSCHEDULED then s\<lparr>worker := ToRemove i\<rparr>
                       else s\<lparr>clock := set_entry c i ((mem c i)\<lparr>status := GST_CLOCK_BUSY\<rparr>),
                              worker := InWait i (time (mem c i))\<rparr>)
         | InWait i req \<Rightarrow>
             let r = gst_system_clock_id_wait_jitter_unlocked p (mem c i) False False first ws;
                 c1 = set_entry c i (entry_out r)
             in (case ret r of
                   None \<Rightarrow> s
                 | Some GST_CLOCK_UNSCHEDULED \<Rightarrow> s\<lparr>clock := c1, worker := ToRemove i\<rparr>
                 | Some GST_CLOCK_OK \<Rightarrow> fire s c1 i req
                 | Some GST_CLOCK_EARLY \<Rightarrow> fire s c1 i req
                 | Some GST_CLOCK_BUSY \<Rightarrow>
                     s\<lparr>clock := set_entry c i ((entry_out r)\<lparr>status := GST_CLOCK_OK\<rparr>),
                       worker := AtLoopHead\<rparr>
                 | Some _ \<Rightarrow> s\<lparr>clock := c1, worker := ToRemove i\<rparr>)
         | InCallback i req \<Rightarrow>
             if type (mem c i) = GST_CLOCK_ENTRY_PERIODIC
             then
               let c1 = set_entry c i ((mem c i)\<lparr>time := req + interval (mem c i)\<rparr>)
               in s\<lparr>clock := c1\<lparr>entries := g_list_sort (entries c1) (\<lambda>j. time (mem c1 j))\<rparr>,
                    worker := AtLoopHead\<rparr>
             else s\<lparr>clock := c\<lparr>entries := g_list_remove (entries c) i\<rparr>, worker := AtLoopHead\<rparr>
         | ToRemove i \<Rightarrow>
             s\<lparr>clock := c\<lparr>entries := g_list_remove (entries c) i\<rparr>, worker := AtLoopHead\<rparr>)"

text \<open>
  What can happen to a clock: a step of its thread (with the environment of the wait, used
  when the step is the wait), and calls of \<open>wait_async\<close> and \<open>unschedule\<close> from any
  thread, the callback included.
\<close>

datatype event =
    Dispatch time_read "wakeup list"
  | WaitAsync bool entry_id
  | Unschedule entry_id

fun step :: "platform \<Rightarrow> system \<Rightarrow> event \<Rightarrow> system" where
  "step p s (Dispatch first ws) = gst_system_clock_async_thread_step p first ws s"
| "step p s (WaitAsync spawned e) =
     s\<lparr>clock := fst (snd (gst_system_clock_id_wait_async spawned (clock s) e))\<rparr>"
| "step p s (Unschedule e) = s\<lparr>clock := fst (gst_system_clock_id_unschedule (clock s) e)\<rparr>"

definition run :: "platform \<Rightarrow> system \<Rightarrow> event list \<Rightarrow> system" where
  "run p s evs = foldl (step p) s evs"

text \<open>The requested deadlines of the firings of one entry, oldest first.\<close>

definition requested_of :: "entry_id \<Rightarrow> system \<Rightarrow> GstClockTime list" where
  "requested_of e s = map requested (filter (\<lambda>f. fired_entry f = e) (fired s))"


text \<open>
  The invariant behind the cadence of a periodic entry \<open>e\<close> that starts at \<open>t0\<close> with
  interval \<open>I\<close>: after \<open>n\<close> firings the entry's time is \<open>t0 + n * I\<close>, except between
  a firing and the return of its callback, where it still is the requested time of that
  firing.
\<close>

definition cadence_inv :: "entry_id \<Rightarrow> GstClockTime \<Rightarrow> GstClockTime \<Rightarrow> system \<Rightarrow> bool" where
  "cadence_inv e t0 I s =
     (let n = length (requested_of e s);
          m = mem (clock s) e;
          nxt = t0 + of_nat n * I
      in type m = GST_CLOCK_ENTRY_PERIODIC \<and> interval m = I \<and>
         requested_of e s = map (\<lambda>k. t0 + of_nat k * I) [0..<n] \<and>
         (\<forall>f\<in>set (fired s). fired_entry f = e \<longrightarrow>
            callback_time f = None \<or> callback_time f = Some (requested f)) \<and>
         (case worker s of
            InCallback i r \<Rightarrow> if i = e then time m = r \<and> r + I = nxt else time m = nxt
          | InWait i r \<Rightarrow> time m = nxt \<and> (i = e \<longrightarrow> r = nxt)
          | _ \<Rightarrow> time m = nxt))"


section \<open>Example states\<close>

text \<open>
  A running clock whose queue holds the entries 1, 2 and 3 with deadlines 1000, 1000 and
  2000; entry 1 is being waited on. Entries 0 and 4 are not queued; their deadlines are
  1000 and 500.
\<close>

definition queue_example :: sysclock where
  "queue_example =
     \<lparr>thread = True, starting = False, stopping = False, entries = [1, 2, 3],
      mem = (\<lambda>i. \<lparr>type = GST_CLOCK_ENTRY_SINGLE,
                   time = (if i = 3 then 2000 else if i = 4 then 500 else 1000),
                   interval = 0,
                   status = (if i = 1 then GST_CLOCK_BUSY else GST_CLOCK_OK),
                   func = True, initialized = (i \<noteq> 0 \<and> i \<noteq> 4)\<rparr>)\<rparr>"

text \<open>
  A clock without thread and without entries; every entry is periodic, first due at 1000,
  then every 30. The events submit entry 0 and let the thread run two rounds (take the
  head, wait, return from the callback) at a time when the deadlines have passed.
\<close>

definition periodic_example :: system where
  "periodic_example =
     \<lparr>clock = \<lparr>thread = False, starting = False, stopping = False, entries = [],
               mem = (\<lambda>i. \<lparr>type = GST_CLOCK_ENTRY_PERIODIC, time = 1000, interval = 30,
                            status = GST_CLOCK_OK, func = True, initialized = False\<rparr>)\<rparr>,
      worker = AtLoopHead, fired = []\<rparr>"

definition late :: event where
  "late = Dispatch \<lparr>now = 5000, monotonic_time = 5, relocked = None\<rparr> []"

definition futex_platform :: platform where
  "futex_platform = \<lparr>CLOCK_MIN_WAIT_TIME = 100, HAVE_CLOCK_NANOSLEEP = True\<rparr>"





section \<open>Order in the queue\<close>







section \<open>Properties of the wait\<close>

text \<open>
  C1. When the entry is not found unscheduled after the first time read and
  \<open>diff = deadline - now\<close> is at most \<open>CLOCK_MIN_WAIT_TIME\<close>, the wait returns at once,
  whatever the environment would do: no sleep and no timed wait is among its effects. It
  returns OK with status OK when \<open>diff = 0\<close>, and EARLY with status EARLY otherwise.
\<close>

theorem wait_below_floor_returns_at_once:
  assumes "observe (relocked first) (status e) \<noteq> GST_CLOCK_UNSCHEDULED"
    and "GST_CLOCK_DIFF (now first) (time e) \<le>s CLOCK_MIN_WAIT_TIME p"
  shows "gst_system_clock_id_wait_jitter_unlocked p e jitter restart first ws =
     (let diff = GST_CLOCK_DIFF (now first) (time e);
          v = (if diff = 0 then GST_CLOCK_OK else GST_CLOCK_EARLY)
      in \<lparr>ret = Some v, entry_out = e\<lparr>status := v\<rparr>,
          log = [EntryUnlock, GetTime, EntryLock] @
                (if jitter then [WriteJitter (- diff)] else [])\<rparr>)"
  using assms
  by (simp add: gst_system_clock_id_wait_jitter_unlocked_def Let_def signed.not_less[symmetric])

theorem wait_below_floor_witness:
  "gst_system_clock_id_wait_jitter_unlocked
      \<lparr>CLOCK_MIN_WAIT_TIME = 100, HAVE_CLOCK_NANOSLEEP = True\<rparr>
      \<lparr>type = GST_CLOCK_ENTRY_SINGLE, time = 1000, interval = 0, status = GST_CLOCK_BUSY,
        func = False, initialized = True\<rparr>
      True False \<lparr>now = 2000, monotonic_time = 5, relocked = None\<rparr> [] =
   \<lparr>ret = Some GST_CLOCK_EARLY,
     entry_out = \<lparr>type = GST_CLOCK_ENTRY_SINGLE, time = 1000, interval = 0,
               status = GST_CLOCK_EARLY, func = False, initialized = True\<rparr>,
     log = [EntryUnlock, GetTime, EntryLock, WriteJitter 1000]\<rparr>"
  using wait_below_floor_returns_at_once
    [of "\<lparr>now = 2000, monotonic_time = 5, relocked = None\<rparr>"
        "\<lparr>type = GST_CLOCK_ENTRY_SINGLE, time = 1000, interval = 0, status = GST_CLOCK_BUSY,
          func = False, initialized = True\<rparr>"
        "\<lparr>CLOCK_MIN_WAIT_TIME = 100, HAVE_CLOCK_NANOSLEEP = True\<rparr>" True False "[]"]
  by (simp add: GST_CLOCK_DIFF_def)

text \<open>The loop writes no jitter: the only write is the one before the loop.\<close>

lemma wait_iteration_no_jitter:
  "\<not> list_ex writes_jitter (fst (wait_iteration p restart entryt diff mono_ts st w))"
  by (simp add: wait_iteration_def Let_def wait_call_def wait_return_def)

lemma wait_loop_no_jitter:
  "filter writes_jitter (log (wait_loop p restart e entryt diff mono_ts ws)) = []"
proof (induction ws arbitrary: e diff mono_ts)
  case Nil
  then show ?case by (simp add: wait_call_def)
next
  case (Cons w ws)
  obtain l out where it: "wait_iteration p restart entryt diff mono_ts (status e) w = (l, out)"
    by (cases "wait_iteration p restart entryt diff mono_ts (status e) w")
  have l: "filter writes_jitter l = []"
    using wait_iteration_no_jitter[of p restart entryt diff mono_ts "status e" w] it
    by (simp add: list_ex_iff filter_empty_conv)
  show ?case
    by (cases out) (simp_all add: it l Cons.IH prepend_def)
qed

text \<open>
  C9. With a non-null \<open>jitter\<close>: when the entry is found unscheduled at the first
  re-check, the wait returns UNSCHEDULED and writes nothing to \<open>*jitter\<close>; on every
  other path, however long the loop runs and also while it is still blocked, there is
  exactly one write, of \<open>- (deadline - now)\<close> with the first time read.
\<close>

theorem jitter_written_once_after_first_check:
  "filter writes_jitter
     (log (gst_system_clock_id_wait_jitter_unlocked p e True restart first ws)) =
     (if observe (relocked first) (status e) = GST_CLOCK_UNSCHEDULED then []
      else [WriteJitter (- (time e - now first))])
   \<and> (observe (relocked first) (status e) = GST_CLOCK_UNSCHEDULED \<longrightarrow>
        ret (gst_system_clock_id_wait_jitter_unlocked p e True restart first ws) =
          Some GST_CLOCK_UNSCHEDULED)"
  by (simp add: gst_system_clock_id_wait_jitter_unlocked_def Let_def prepend_def
      wait_loop_no_jitter GST_CLOCK_DIFF_def)

theorem jitter_written_once_witness:
  "filter writes_jitter
     (log (gst_system_clock_id_wait_jitter_unlocked
        \<lparr>CLOCK_MIN_WAIT_TIME = 500, HAVE_CLOCK_NANOSLEEP = False\<rparr>
        \<lparr>type = GST_CLOCK_ENTRY_SINGLE, time = 7000, interval = 0, status = GST_CLOCK_BUSY,
          func = False, initialized = True\<rparr>
        True True \<lparr>now = 1000, monotonic_time = 3, relocked = Some GST_CLOCK_UNSCHEDULED\<rparr>
        [])) = []
   \<and> ret (gst_system_clock_id_wait_jitter_unlocked
        \<lparr>CLOCK_MIN_WAIT_TIME = 500, HAVE_CLOCK_NANOSLEEP = False\<rparr>
        \<lparr>type = GST_CLOCK_ENTRY_SINGLE, time = 7000, interval = 0, status = GST_CLOCK_BUSY,
          func = False, initialized = True\<rparr>
        True True \<lparr>now = 1000, monotonic_time = 3, relocked = Some GST_CLOCK_UNSCHEDULED\<rparr>
        []) = Some GST_CLOCK_UNSCHEDULED"
  using jitter_written_once_after_first_check
    [of "\<lparr>CLOCK_MIN_WAIT_TIME = 500, HAVE_CLOCK_NANOSLEEP = False\<rparr>"
        "\<lparr>type = GST_CLOCK_ENTRY_SINGLE, time = 7000, interval = 0, status = GST_CLOCK_BUSY,
          func = False, initialized = True\<rparr>"
        True "\<lparr>now = 1000, monotonic_time = 3, relocked = Some GST_CLOCK_UNSCHEDULED\<rparr>" "[]"]
  by simp

text \<open>With \<open>restart\<close> set, the loop is left only with OK or UNSCHEDULED.\<close>

lemma wait_iteration_restart:
  "wait_iteration p True entryt diff mono_ts st w = (l, Done r s) \<Longrightarrow>
     r \<in> {GST_CLOCK_OK, GST_CLOCK_UNSCHEDULED}"
  by (auto simp add: wait_iteration_def Let_def split: if_splits)

lemma wait_loop_restart:
  "ret (wait_loop p True e entryt diff mono_ts ws) = Some v \<Longrightarrow>
     v \<in> {GST_CLOCK_OK, GST_CLOCK_UNSCHEDULED}"
proof (induction ws arbitrary: e diff mono_ts)
  case Nil
  then show ?case by simp
next
  case (Cons w ws)
  obtain l out where it: "wait_iteration p True entryt diff mono_ts (status e) w = (l, out)"
    by (cases "wait_iteration p True entryt diff mono_ts (status e) w")
  show ?case
  proof (cases out)
    case (Done r s)
    with Cons.prems it wait_iteration_restart[of p entryt diff mono_ts "status e" w l r s]
    show ?thesis by simp
  next
    case (Again d m)
    with Cons.prems it Cons.IH[of "e\<lparr>status := GST_CLOCK_BUSY\<rparr>" d m]
    show ?thesis by (simp add: prepend_def)
  qed
qed

lemma wait_unlocked_restart:
  "ret (gst_system_clock_id_wait_jitter_unlocked p e jitter True first ws) = Some v \<Longrightarrow>
     v \<in> {GST_CLOCK_OK, GST_CLOCK_EARLY, GST_CLOCK_UNSCHEDULED}"
  using wait_loop_restart[of p "e\<lparr>status := observe (relocked first) (status e)\<rparr>" "time e"
      "GST_CLOCK_DIFF (now first) (time e)" "monotonic_time first" ws v]
  by (auto simp add: gst_system_clock_id_wait_jitter_unlocked_def Let_def prepend_def
      split: if_splits)

text \<open>
  C8. Whatever the synchronous wait returns is OK, EARLY or UNSCHEDULED; in particular it
  never returns BUSY.
\<close>

theorem sync_wait_never_returns_busy:
  "ret (gst_system_clock_id_wait_jitter p e jitter first ws) = Some v \<Longrightarrow>
     v \<in> {GST_CLOCK_OK, GST_CLOCK_EARLY, GST_CLOCK_UNSCHEDULED}"
  using wait_unlocked_restart
    [of p "(ensure_entry_initialized e)\<lparr>status := GST_CLOCK_BUSY\<rparr>" jitter first ws v]
  by (auto simp add: gst_system_clock_id_wait_jitter_def Let_def split: if_splits)

text \<open>
  An instance, a wait of 1 ms on a condition: the first wake-up is a signal (it would
  end an asynchronous wait with BUSY), the time is read again and 0.4 ms remain, so the
  loop goes on; the second wait times out at the deadline.
\<close>

theorem sync_wait_never_returns_busy_witness:
  "ret (gst_system_clock_id_wait_jitter
      \<lparr>CLOCK_MIN_WAIT_TIME = 500, HAVE_CLOCK_NANOSLEEP = False\<rparr>
      \<lparr>type = GST_CLOCK_ENTRY_SINGLE, time = 1000000, interval = 0, status = GST_CLOCK_OK,
        func = False, initialized = False\<rparr>
      False \<lparr>now = 0, monotonic_time = 50, relocked = None\<rparr>
      [\<lparr>nanosleep_ret = 0, wait_until_ret = True, woken = None,
        reread = \<lparr>now = 600000, monotonic_time = 650, relocked = None\<rparr>\<rparr>,
       \<lparr>nanosleep_ret = 0, wait_until_ret = False, woken = None,
        reread = \<lparr>now = 1000000, monotonic_time = 1050, relocked = None\<rparr>\<rparr>])
     = Some GST_CLOCK_OK
   \<and> GST_CLOCK_OK \<in> {GST_CLOCK_OK, GST_CLOCK_EARLY, GST_CLOCK_UNSCHEDULED}"
proof -
  have r: "ret (gst_system_clock_id_wait_jitter
      \<lparr>CLOCK_MIN_WAIT_TIME = 500, HAVE_CLOCK_NANOSLEEP = False\<rparr>
      \<lparr>type = GST_CLOCK_ENTRY_SINGLE, time = 1000000, interval = 0, status = GST_CLOCK_OK,
        func = False, initialized = False\<rparr>
      False \<lparr>now = 0, monotonic_time = 50, relocked = None\<rparr>
      [\<lparr>nanosleep_ret = 0, wait_until_ret = True, woken = None,
        reread = \<lparr>now = 600000, monotonic_time = 650, relocked = None\<rparr>\<rparr>,
       \<lparr>nanosleep_ret = 0, wait_until_ret = False, woken = None,
        reread = \<lparr>now = 1000000, monotonic_time = 1050, relocked = None\<rparr>\<rparr>])
     = Some GST_CLOCK_OK"
    by (simp add: gst_system_clock_id_wait_jitter_def gst_system_clock_id_wait_jitter_unlocked_def
        ensure_entry_initialized_def wait_iteration_def wait_call_def wait_return_def
        use_nanosleep_def prepend_def GST_CLOCK_DIFF_def Let_def word_sle_eq word_sless_alt)
  from sync_wait_never_returns_busy[OF r] r show ?thesis by simp
qed

lemma ensure_entry_initialized_status:
  "status (ensure_entry_initialized e) = status e"
  by (simp add: ensure_entry_initialized_def)

lemma ensure_entry_initialized_busy:
  "(ensure_entry_initialized (e\<lparr>status := s\<rparr>))\<lparr>status := GST_CLOCK_BUSY\<rparr> =
   (ensure_entry_initialized e)\<lparr>status := GST_CLOCK_BUSY\<rparr>"
  by (simp add: ensure_entry_initialized_def)

text \<open>
  C10. A synchronous wait on an entry whose status is neither OK nor UNSCHEDULED goes
  exactly as it goes on the same entry with status OK: it is the wait on the entry marked
  BUSY, with the same return value and the same final entry, and it does not return
  ERROR. The only difference is the error log \<open>unexpected status\<close>, written right after
  the entry is locked.
\<close>

theorem sync_wait_unexpected_status_only_logged:
  assumes "s \<noteq> GST_CLOCK_OK" and "s \<noteq> GST_CLOCK_UNSCHEDULED"
  shows "let r = gst_system_clock_id_wait_jitter p (e\<lparr>status := s\<rparr>) jitter first ws;
             r0 = gst_system_clock_id_wait_jitter p (e\<lparr>status := GST_CLOCK_OK\<rparr>) jitter first ws;
             u = gst_system_clock_id_wait_jitter_unlocked p
                   ((ensure_entry_initialized e)\<lparr>status := GST_CLOCK_BUSY\<rparr>) jitter True first ws
         in ret r = ret r0 \<and> entry_out r = entry_out r0 \<and>
            log r = EntryLock # LogUnexpectedStatus s # tl (log r0) \<and>
            ret r = ret u \<and> entry_out r = entry_out u \<and>
            ret r \<noteq> Some GST_CLOCK_ERROR"
proof -
  let ?u = "gst_system_clock_id_wait_jitter_unlocked p
              ((ensure_entry_initialized e)\<lparr>status := GST_CLOCK_BUSY\<rparr>) jitter True first ws"
  have "ret ?u \<noteq> Some GST_CLOCK_ERROR"
    using wait_unlocked_restart
      [of p "(ensure_entry_initialized e)\<lparr>status := GST_CLOCK_BUSY\<rparr>" jitter first ws
          GST_CLOCK_ERROR]
    by auto
  with assms show ?thesis
    by (simp add: gst_system_clock_id_wait_jitter_def Let_def ensure_entry_initialized_status
        ensure_entry_initialized_busy)
qed

theorem sync_wait_unexpected_status_witness:
  "GST_CLOCK_DONE \<noteq> GST_CLOCK_OK \<and> GST_CLOCK_DONE \<noteq> GST_CLOCK_UNSCHEDULED \<and>
   ret (gst_system_clock_id_wait_jitter
          \<lparr>CLOCK_MIN_WAIT_TIME = 100, HAVE_CLOCK_NANOSLEEP = True\<rparr>
          (\<lparr>type = GST_CLOCK_ENTRY_SINGLE, time = 1000, interval = 0, status = GST_CLOCK_OK,
            func = False, initialized = True\<rparr>\<lparr>status := GST_CLOCK_DONE\<rparr>)
          False \<lparr>now = 2000, monotonic_time = 5, relocked = None\<rparr> [])
     = Some GST_CLOCK_EARLY \<and>
   log (gst_system_clock_id_wait_jitter
          \<lparr>CLOCK_MIN_WAIT_TIME = 100, HAVE_CLOCK_NANOSLEEP = True\<rparr>
          (\<lparr>type = GST_CLOCK_ENTRY_SINGLE, time = 1000, interval = 0, status = GST_CLOCK_OK,
            func = False, initialized = True\<rparr>\<lparr>status := GST_CLOCK_DONE\<rparr>)
          False \<lparr>now = 2000, monotonic_time = 5, relocked = None\<rparr> [])
     = [EntryLock, LogUnexpectedStatus GST_CLOCK_DONE, EntryUnlock, GetTime, EntryLock,
        EntryUnlock]"
proof -
  have ok: "gst_system_clock_id_wait_jitter
          \<lparr>CLOCK_MIN_WAIT_TIME = 100, HAVE_CLOCK_NANOSLEEP = True\<rparr>
          (\<lparr>type = GST_CLOCK_ENTRY_SINGLE, time = 1000, interval = 0, status = GST_CLOCK_OK,
            func = False, initialized = True\<rparr>\<lparr>status := GST_CLOCK_OK\<rparr>)
          False \<lparr>now = 2000, monotonic_time = 5, relocked = None\<rparr> [] =
        \<lparr>ret = Some GST_CLOCK_EARLY,
          entry_out = \<lparr>type = GST_CLOCK_ENTRY_SINGLE, time = 1000, interval = 0,
                        status = GST_CLOCK_EARLY, func = False, initialized = True\<rparr>,
          log = [EntryLock, EntryUnlock, GetTime, EntryLock, EntryUnlock]\<rparr>"
    by (simp add: gst_system_clock_id_wait_jitter_def gst_system_clock_id_wait_jitter_unlocked_def
        ensure_entry_initialized_def GST_CLOCK_DIFF_def Let_def word_sle_eq word_sless_alt)
  have d: "GST_CLOCK_DONE \<noteq> GST_CLOCK_OK" "GST_CLOCK_DONE \<noteq> GST_CLOCK_UNSCHEDULED"
    by simp_all
  from sync_wait_unexpected_status_only_logged[OF d,
      of "\<lparr>CLOCK_MIN_WAIT_TIME = 100, HAVE_CLOCK_NANOSLEEP = True\<rparr>"
         "\<lparr>type = GST_CLOCK_ENTRY_SINGLE, time = 1000, interval = 0, status = GST_CLOCK_OK,
            func = False, initialized = True\<rparr>"
         False "\<lparr>now = 2000, monotonic_time = 5, relocked = None\<rparr>" "[]"]
  show ?thesis
    unfolding Let_def ok by simp
qed

text \<open>
  C7. With \<open>clock_nanosleep\<close> available and \<open>diff\<close> at most 500 us, every pass of the loop
  releases the entry lock, sleeps until \<open>mono_ts * 1000 + diff\<close> and takes the lock again.
\<close>

lemma nanosleep_pass_effects:
  assumes "HAVE_CLOCK_NANOSLEEP p" and "diff \<le>s 500 * GST_USECOND"
  shows "take 3 (fst (wait_iteration p restart entryt diff mono_ts st w)) =
           [EntryUnlock, ClockNanosleep (mono_ts * 1000 + diff), EntryLock]"
  using assms
  by (simp add: wait_iteration_def wait_call_def wait_return_def use_nanosleep_def Let_def)

text \<open>
  C7, the last part. The program computes \<open>waitret\<close> as \<open>clock_nanosleep (...) == 0\<close>, so a
  sleep that ran to its end counts as a wake-up by another thread. In the asynchronous
  wait below (200 us to the deadline, nobody touches the entry, the sleep returns 0) the
  function takes the branch \<open>if (waitret)\<close>, \<open>if (!restart)\<close>: it marks the entry DONE and
  returns BUSY without reading the time again. The same call with an interrupted sleep
  (a non-zero return value) takes the time-out branch: it reads the time, finds the
  deadline reached and returns OK.
\<close>

theorem completed_nanosleep_taken_as_wakeup:
  "gst_system_clock_id_wait_jitter_unlocked
      \<lparr>CLOCK_MIN_WAIT_TIME = 100, HAVE_CLOCK_NANOSLEEP = True\<rparr>
      \<lparr>type = GST_CLOCK_ENTRY_SINGLE, time = 1000000, interval = 0, status = GST_CLOCK_BUSY,
        func = True, initialized = True\<rparr>
      False False \<lparr>now = 800000, monotonic_time = 5000, relocked = None\<rparr>
      [\<lparr>nanosleep_ret = 0, wait_until_ret = False, woken = None,
        reread = \<lparr>now = 1000000, monotonic_time = 5200, relocked = None\<rparr>\<rparr>] =
    \<lparr>ret = Some GST_CLOCK_BUSY,
      entry_out = \<lparr>type = GST_CLOCK_ENTRY_SINGLE, time = 1000000, interval = 0,
                    status = GST_CLOCK_DONE, func = True, initialized = True\<rparr>,
      log = [EntryUnlock, GetTime, EntryLock,
             EntryUnlock, ClockNanosleep 5200000, EntryLock]\<rparr>
   \<and>
   gst_system_clock_id_wait_jitter_unlocked
      \<lparr>CLOCK_MIN_WAIT_TIME = 100, HAVE_CLOCK_NANOSLEEP = True\<rparr>
      \<lparr>type = GST_CLOCK_ENTRY_SINGLE, time = 1000000, interval = 0, status = GST_CLOCK_BUSY,
        func = True, initialized = True\<rparr>
      False False \<lparr>now = 800000, monotonic_time = 5000, relocked = None\<rparr>
      [\<lparr>nanosleep_ret = 4, wait_until_ret = False, woken = None,
        reread = \<lparr>now = 1000000, monotonic_time = 5200, relocked = None\<rparr>\<rparr>] =
    \<lparr>ret = Some GST_CLOCK_OK,
      entry_out = \<lparr>type = GST_CLOCK_ENTRY_SINGLE, time = 1000000, interval = 0,
                    status = GST_CLOCK_OK, func = True, initialized = True\<rparr>,
      log = [EntryUnlock, GetTime, EntryLock,
             EntryUnlock, ClockNanosleep 5200000, EntryLock,
             EntryUnlock, GetTime, EntryLock]\<rparr>"
  by (simp add: gst_system_clock_id_wait_jitter_unlocked_def wait_iteration_def wait_call_def
      wait_return_def use_nanosleep_def prepend_def GST_CLOCK_DIFF_def GST_USECOND_def
      Let_def word_sle_eq word_sless_alt)


section \<open>Properties of the scheduler calls\<close>

text \<open>
  C2. Whatever the status of the entry was, \<open>unschedule\<close> leaves it UNSCHEDULED and
  broadcasts the entry's condition exactly when the status was BUSY. A second call on the
  same entry changes nothing and sends no signal.
\<close>

theorem unschedule_idempotent:
  "let (c1, s1) = gst_system_clock_id_unschedule c e;
       (c2, s2) = gst_system_clock_id_unschedule c1 e
   in status (mem c1 e) = GST_CLOCK_UNSCHEDULED \<and>
      s1 = (if status (mem c e) = GST_CLOCK_BUSY then [EntryBroadcast e] else []) \<and>
      c2 = c1 \<and> s2 = [] \<and> status (mem c2 e) = GST_CLOCK_UNSCHEDULED"
  by (simp add: gst_system_clock_id_unschedule_def set_entry_def Let_def
      ensure_entry_initialized_def)

text \<open>Facts about the parts of \<open>wait_async\<close>.\<close>

lemma ensure_entry_initialized_fields:
  "time (ensure_entry_initialized e) = time e"
  "type (ensure_entry_initialized e) = type e"
  "interval (ensure_entry_initialized e) = interval e"
  "func (ensure_entry_initialized e) = func e"
  by (simp_all add: ensure_entry_initialized_def)

lemma set_entry_simps:
  "mem (set_entry c i x) j = (if j = i then x else mem c j)"
  "entries (set_entry c i x) = entries c"
  "thread (set_entry c i x) = thread c"
  "stopping (set_entry c i x) = stopping c"
  by (simp_all add: set_entry_def)

lemma compare_in_cong:
  "(\<And>i. time (mem c' i) = time (mem c i)) \<Longrightarrow> compare_in c' = compare_in c"
  by (intro ext) (simp add: compare_in_def gst_clock_id_compare_func_def)


lemma start_async_cases:
  "gst_system_clock_start_async spawned c = (ok, c1) \<Longrightarrow>
     ok = (thread c \<or> spawned) \<and> entries c1 = entries c \<and> mem c1 = mem c
     \<and> stopping c1 = stopping c \<and> thread c1 = (thread c \<or> spawned)"
  by (auto simp add: gst_system_clock_start_async_def split: if_splits)

lemma g_list_insert_sorted_not_Nil: "g_list_insert_sorted xs d cmp \<noteq> []"
  by (cases xs) simp_all

lemma head_is_case:
  "(case g_list_insert_sorted xs d cmp of [] \<Rightarrow> False | x # _ \<Rightarrow> x = d) =
     (hd (g_list_insert_sorted xs d cmp) = d)"
  using g_list_insert_sorted_not_Nil[of xs d cmp]
  by (cases "g_list_insert_sorted xs d cmp") simp_all

text \<open>The three ways through \<open>wait_async\<close>, in terms of the state at the call.\<close>

lemma wait_async_unfold:
  "gst_system_clock_id_wait_async spawned c e =
    (if \<not> (thread c \<or> spawned) then (GST_CLOCK_ERROR, c\<lparr>starting := False\<rparr>, [])
     else
       let c2 = set_entry (snd (gst_system_clock_start_async spawned c)) e
                  (ensure_entry_initialized (mem c e))
       in if status (mem c e) = GST_CLOCK_UNSCHEDULED then (GST_CLOCK_UNSCHEDULED, c2, [])
          else
            let q' = g_list_insert_sorted (entries c) e (compare_in c)
            in (GST_CLOCK_OK, c2\<lparr>entries := q'\<rparr>,
                if hd q' = e
                then (case entries c of
                        [] \<Rightarrow> [ClockBroadcast]
                      | h # _ \<Rightarrow>
                          if status (mem c h) = GST_CLOCK_BUSY then [EntryBroadcast h] else [])
                else []))"
proof (cases "thread c \<or> spawned")
  case False
  then show ?thesis
    by (simp add: gst_system_clock_id_wait_async_def gst_system_clock_start_async_def)
next
  case True
  have "fst (gst_system_clock_start_async spawned c)"
    using True by (auto simp add: gst_system_clock_start_async_def)
  then obtain c1 where st: "gst_system_clock_start_async spawned c = (True, c1)"
    by (cases "gst_system_clock_start_async spawned c") simp
  have f: "entries c1 = entries c" "mem c1 = mem c"
    using start_async_cases[OF st] by simp_all
  let ?c2 = "set_entry c1 e (ensure_entry_initialized (mem c e))"
  have cmp: "compare_in ?c2 = compare_in c"
    using f by (intro compare_in_cong) (simp add: set_entry_def ensure_entry_initialized_fields)
  have q: "entries ?c2 = entries c" using f by (simp add: set_entry_def)
  have stt: "\<And>h. status (mem ?c2 h) = status (mem c h)"
    using f by (simp add: set_entry_def ensure_entry_initialized_status)
  show ?thesis
  proof (cases "entries c")
    case Nil
    with True show ?thesis
      by (simp add: gst_system_clock_id_wait_async_def st f Let_def cmp q stt)
  next
    case (Cons h t)
    have "(case g_list_insert_sorted (h # t) e (compare_in c) of [] \<Rightarrow> False | x # _ \<Rightarrow> x = e)
          = (hd (g_list_insert_sorted (h # t) e (compare_in c)) = e)"
      by (rule head_is_case)
    with True Cons show ?thesis
      by (simp add: gst_system_clock_id_wait_async_def st f Let_def cmp q stt
          del: g_list_insert_sorted.simps)
  qed
qed

text \<open>
  C4, as the program has it. The call returns ERROR exactly when the thread is not running
  and cannot be started; it returns UNSCHEDULED exactly when the thread runs or could be
  started and the entry is already unscheduled; it returns OK in the remaining case.
  The queue is unchanged unless the call returns OK, and then the entry has been inserted.
\<close>

theorem wait_async_results:
  "let (r, c', sigs) = gst_system_clock_id_wait_async spawned c e;
       started = (thread c \<or> spawned);
       unscheduled = (status (mem c e) = GST_CLOCK_UNSCHEDULED)
   in (r = GST_CLOCK_ERROR \<longleftrightarrow> \<not> started) \<and>
      (r = GST_CLOCK_UNSCHEDULED \<longleftrightarrow> started \<and> unscheduled) \<and>
      (r = GST_CLOCK_OK \<longleftrightarrow> started \<and> \<not> unscheduled) \<and>
      (r \<noteq> GST_CLOCK_OK \<longrightarrow> entries c' = entries c) \<and>
      (r = GST_CLOCK_OK \<longrightarrow> entries c' = g_list_insert_sorted (entries c) e (compare_in c))"
  by (simp add: wait_async_unfold Let_def set_entry_def gst_system_clock_start_async_def)

theorem wait_async_results_witness:
  "fst (gst_system_clock_id_wait_async False queue_example 0) = GST_CLOCK_OK \<and>
   entries (fst (snd (gst_system_clock_id_wait_async False queue_example 0))) = [1, 2, 0, 3]"
  using wait_async_results[of False queue_example 0]
  by (simp add: queue_example_def compare_in_def gst_clock_id_compare_func_def split_beta)

text \<open>
  C4, as the claim has it: an entry that is already unscheduled is answered with ERROR,
  not UNSCHEDULED, when the thread cannot be started.
\<close>

theorem wait_async_unscheduled_iff_counterexample:
  "\<not> (fst (gst_system_clock_id_wait_async False
           \<lparr>thread = False, starting = False, stopping = False, entries = [],
             mem = (\<lambda>i. \<lparr>type = GST_CLOCK_ENTRY_SINGLE, time = 1000, interval = 0,
                          status = GST_CLOCK_UNSCHEDULED, func = True, initialized = True\<rparr>)\<rparr>
           0) = GST_CLOCK_UNSCHEDULED
       \<longleftrightarrow>
       status (mem \<lparr>thread = False, starting = False, stopping = False, entries = [],
             mem = (\<lambda>i. \<lparr>type = GST_CLOCK_ENTRY_SINGLE, time = 1000, interval = 0,
                          status = GST_CLOCK_UNSCHEDULED, func = True, initialized = True\<rparr>)\<rparr>
           0) = GST_CLOCK_UNSCHEDULED)"
  by (simp add: gst_system_clock_id_wait_async_def gst_system_clock_start_async_def)

text \<open>
  C5. In a call that returns OK: when the entry is the head of the queue after the
  insertion, the clock condition is broadcast if the queue was empty, and otherwise the
  condition of the previous head is broadcast if that entry is BUSY and nothing is sent if
  it is not; when the entry is not the head, nothing is sent.
\<close>

theorem wait_async_signals:
  assumes "gst_system_clock_id_wait_async spawned c e = (GST_CLOCK_OK, c', sigs)"
  shows "sigs =
     (if hd (entries c') = e
      then (case entries c of
              [] \<Rightarrow> [ClockBroadcast]
            | h # _ \<Rightarrow> if status (mem c h) = GST_CLOCK_BUSY then [EntryBroadcast h] else [])
      else [])"
  using assms
  by (auto simp add: wait_async_unfold Let_def split: if_splits)

theorem wait_async_signals_witness:
  "snd (snd (gst_system_clock_id_wait_async False queue_example 4)) = [EntryBroadcast 1]"
proof -
  let ?r = "gst_system_clock_id_wait_async False queue_example 4"
  have ok: "fst ?r = GST_CLOCK_OK"
    and q: "entries (fst (snd ?r)) = [4, 1, 2, 3]"
    by (simp_all add: wait_async_unfold queue_example_def compare_in_def
        gst_clock_id_compare_func_def Let_def)
  have "?r = (GST_CLOCK_OK, fst (snd ?r), snd (snd ?r))"
    using ok by (metis prod.collapse)
  from wait_async_signals[OF this] show ?thesis
    by (simp add: q) (simp add: queue_example_def)
qed






section \<open>The cadence of a periodic entry\<close>

text \<open>The wait changes nothing of an entry but its status.\<close>

lemma wait_iteration_cases:
  obtains l r s where "wait_iteration p restart entryt diff mono_ts st w = (l, Done r s)"
  | l d m where "wait_iteration p restart entryt diff mono_ts st w = (l, Again d m)"
  by (cases "wait_iteration p restart entryt diff mono_ts st w"; rename_tac l out;
      case_tac out; auto)

lemma wait_loop_entry:
  "\<exists>s. entry_out (wait_loop p restart e entryt diff mono_ts ws) = e\<lparr>status := s\<rparr>"
proof (induction ws arbitrary: e diff mono_ts)
  case Nil
  have "e = e\<lparr>status := status e\<rparr>" by simp
  then have "\<exists>s. e = e\<lparr>status := s\<rparr>" by (rule exI)
  then show ?case by simp
next
  case (Cons w ws)
  show ?case
  proof (cases rule: wait_iteration_cases[of p restart entryt diff mono_ts "status e" w])
    case (1 l r s)
    then show ?thesis by simp blast
  next
    case (2 l d m)
    from Cons.IH[of "e\<lparr>status := GST_CLOCK_BUSY\<rparr>" d m]
    obtain s where
      "entry_out (wait_loop p restart (e\<lparr>status := GST_CLOCK_BUSY\<rparr>) entryt d m ws)
         = e\<lparr>status := s\<rparr>"
      by auto
    with 2 show ?thesis by (simp add: prepend_def) blast
  qed
qed

lemma wait_unlocked_entry:
  "\<exists>s. entry_out (gst_system_clock_id_wait_jitter_unlocked p e jitter restart first ws)
         = e\<lparr>status := s\<rparr>"
proof -
  let ?e1 = "e\<lparr>status := observe (relocked first) (status e)\<rparr>"
  obtain s where "entry_out (wait_loop p restart ?e1 (time e)
      (GST_CLOCK_DIFF (now first) (time e)) (monotonic_time first) ws) = ?e1\<lparr>status := s\<rparr>"
    using wait_loop_entry by blast
  then show ?thesis
    by (auto simp add: gst_system_clock_id_wait_jitter_unlocked_def Let_def prepend_def)
qed

lemma wait_unlocked_fields:
  "time (entry_out (gst_system_clock_id_wait_jitter_unlocked p e jitter restart first ws))
     = time e"
  "type (entry_out (gst_system_clock_id_wait_jitter_unlocked p e jitter restart first ws))
     = type e"
  "interval (entry_out (gst_system_clock_id_wait_jitter_unlocked p e jitter restart first ws))
     = interval e"
  "func (entry_out (gst_system_clock_id_wait_jitter_unlocked p e jitter restart first ws))
     = func e"
  using wait_unlocked_entry[of p e jitter restart first ws] by auto

text \<open>Neither do \<open>wait_async\<close> and \<open>unschedule\<close> touch time, type or interval.\<close>

lemma wait_async_frame:
  "time (mem (fst (snd (gst_system_clock_id_wait_async spawned c e'))) i) = time (mem c i)"
  "type (mem (fst (snd (gst_system_clock_id_wait_async spawned c e'))) i) = type (mem c i)"
  "interval (mem (fst (snd (gst_system_clock_id_wait_async spawned c e'))) i)
     = interval (mem c i)"
  by (simp_all add: wait_async_unfold Let_def set_entry_simps gst_system_clock_start_async_def
      ensure_entry_initialized_fields)

lemma unschedule_frame:
  "time (mem (fst (gst_system_clock_id_unschedule c e')) i) = time (mem c i)"
  "type (mem (fst (gst_system_clock_id_unschedule c e')) i) = type (mem c i)"
  "interval (mem (fst (gst_system_clock_id_unschedule c e')) i) = interval (mem c i)"
  by (simp_all add: gst_system_clock_id_unschedule_def Let_def set_entry_simps
      ensure_entry_initialized_fields)

text \<open>Every event keeps the invariant.\<close>

lemma cadence_inv_clock:
  assumes "cadence_inv e t0 I s"
    and "time (mem c e) = time (mem (clock s) e)"
    and "type (mem c e) = type (mem (clock s) e)"
    and "interval (mem c e) = interval (mem (clock s) e)"
  shows "cadence_inv e t0 I (s\<lparr>clock := c\<rparr>)"
  using assms
  by (simp add: cadence_inv_def Let_def requested_of_def split: dispatcher.splits)

lemma cadence_inv_dispatch:
  assumes "cadence_inv e t0 I s"
  shows "cadence_inv e t0 I (gst_system_clock_async_thread_step p first ws s)"
proof (cases "thread (clock s)")
  case False
  with assms show ?thesis by (simp add: gst_system_clock_async_thread_step_def)
next
  case True
  note inv = assms[unfolded cadence_inv_def Let_def]
  show ?thesis
  proof (cases "worker s")
    case AtLoopHead
    with True inv show ?thesis
      by (auto simp add: gst_system_clock_async_thread_step_def cadence_inv_def Let_def
          requested_of_def set_entry_simps split: list.splits)
  next
    case (InWait i r)
    let ?r = "gst_system_clock_id_wait_jitter_unlocked p (mem (clock s) i) False False first ws"
    show ?thesis
    proof (cases "ret ?r")
      case None
      with True InWait assms show ?thesis
        by (simp add: gst_system_clock_async_thread_step_def Let_def)
    next
      case (Some v)
      with True InWait inv show ?thesis
        by (cases v)
           (auto simp add: gst_system_clock_async_thread_step_def cadence_inv_def Let_def
             fire_def requested_of_def set_entry_simps wait_unlocked_fields algebra_simps)
    qed
  next
    case (InCallback i r)
    with True inv show ?thesis
      by (auto simp add: gst_system_clock_async_thread_step_def cadence_inv_def Let_def
          requested_of_def set_entry_simps g_list_sort_def g_list_remove_def algebra_simps)
  next
    case (ToRemove i)
    with True inv show ?thesis
      by (auto simp add: gst_system_clock_async_thread_step_def cadence_inv_def Let_def
          requested_of_def set_entry_simps g_list_sort_def g_list_remove_def algebra_simps)
  next
    case Exited
    with True assms show ?thesis by (simp add: gst_system_clock_async_thread_step_def)
  qed
qed

lemma cadence_inv_step:
  assumes "cadence_inv e t0 I s"
  shows "cadence_inv e t0 I (step p s ev)"
proof (cases ev)
  case (Dispatch first ws)
  with assms show ?thesis by (simp add: cadence_inv_dispatch)
next
  case (WaitAsync spawned e')
  with assms show ?thesis by (simp add: cadence_inv_clock wait_async_frame)
next
  case (Unschedule e')
  with assms show ?thesis by (simp add: cadence_inv_clock unschedule_frame)
qed

lemma cadence_inv_run:
  "cadence_inv e t0 I s \<Longrightarrow> cadence_inv e t0 I (run p s evs)"
  unfolding run_def
  by (induction evs arbitrary: s) (simp_all add: cadence_inv_step)

lemma cadence_inv_init:
  assumes "type (mem (clock s0) e) = GST_CLOCK_ENTRY_PERIODIC" and "worker s0 = AtLoopHead"
    and "fired s0 = []"
  shows "cadence_inv e (time (mem (clock s0) e)) (interval (mem (clock s0) e)) s0"
  using assms by (simp add: cadence_inv_def requested_of_def)

text \<open>The 64-bit value \<open>t0 + k * I\<close> is the number \<open>t0 + k * I\<close> as long as that fits.\<close>

lemma unat_cadence:
  fixes t0 I :: "64 word"
  assumes "unat t0 + k * unat I < 2 ^ 64"
  shows "unat (t0 + of_nat k * I) = unat t0 + k * unat I"
proof (cases "I = 0")
  case True
  then show ?thesis by simp
next
  case False
  then have "0 < unat I" by (simp add: unat_gt_0)
  then have "k \<le> k * unat I" by (cases "unat I") simp_all
  with assms have k: "k < 2 ^ 64" by linarith
  then have uk: "unat (of_nat k :: 64 word) = k"
    by (simp add: unat_of_nat)
  from assms have "unat (of_nat k :: 64 word) * unat I < 2 ^ LENGTH(64)"
    by (simp add: uk)
  then have m: "unat (of_nat k * I) = k * unat I"
    using unat_mult_lem[of "of_nat k :: 64 word" I] uk by simp
  from assms have "unat t0 + unat (of_nat k * I) < 2 ^ LENGTH(64)"
    by (simp add: m)
  then show ?thesis
    using unat_add_lem[of t0 "of_nat k * I"] m by simp
qed

text \<open>
  C3. Take a clock whose thread is at the head of its loop and has fired nothing yet, and
  a periodic entry \<open>e\<close> with time \<open>t0\<close> and interval \<open>I\<close>. Let any sequence of events
  happen: steps of the thread with any clock readings, wake-ups and interference in its
  waits, and calls of \<open>wait_async\<close> and \<open>unschedule\<close> on any entries at any point. Then
  \<^item> the \<open>k\<close>-th firing of \<open>e\<close> (counting from 0) has the requested deadline
    \<open>t0 + k * I\<close>, in the 64-bit arithmetic of \<open>GstClockTime\<close>, which is the number
    \<open>t0 + k * I\<close> whenever that is below \<open>2 ^ 64\<close>;
  \<^item> the time handed to the callback of such a firing is its requested deadline;
  \<^item> in any state, when the callback of a periodic entry fired with requested deadline
    \<open>r\<close> has returned, the next step of the thread sets the entry's time to
    \<open>r + interval\<close>.
\<close>

theorem periodic_cadence:
  assumes "type (mem (clock s0) e) = GST_CLOCK_ENTRY_PERIODIC"
    and "worker s0 = AtLoopHead"
    and "fired s0 = []"
  shows "(\<forall>k < length (requested_of e (run p s0 evs)).
            requested_of e (run p s0 evs) ! k =
              time (mem (clock s0) e) + of_nat k * interval (mem (clock s0) e) \<and>
            (unat (time (mem (clock s0) e)) + k * unat (interval (mem (clock s0) e)) < 2 ^ 64
               \<longrightarrow> unat (requested_of e (run p s0 evs) ! k) =
                 unat (time (mem (clock s0) e)) + k * unat (interval (mem (clock s0) e))))
       \<and> (\<forall>f\<in>set (fired (run p s0 evs)). fired_entry f = e \<longrightarrow>
            callback_time f = None \<or> callback_time f = Some (requested f))
       \<and> (thread (clock s) \<and> worker s = InCallback i r \<and>
            type (mem (clock s) i) = GST_CLOCK_ENTRY_PERIODIC \<longrightarrow>
            time (mem (clock (step p s (Dispatch first ws))) i) = r + interval (mem (clock s) i))"
proof -
  let ?t0 = "time (mem (clock s0) e)" and ?I = "interval (mem (clock s0) e)"
  let ?s = "run p s0 evs"
  have inv: "cadence_inv e ?t0 ?I ?s"
    using assms by (intro cadence_inv_run cadence_inv_init)
  then have req: "requested_of e ?s =
      map (\<lambda>k. ?t0 + of_nat k * ?I) [0..<length (requested_of e ?s)]"
    and cb: "\<forall>f\<in>set (fired ?s). fired_entry f = e \<longrightarrow>
            callback_time f = None \<or> callback_time f = Some (requested f)"
    by (simp_all add: cadence_inv_def Let_def)
  have nth: "requested_of e ?s ! k = ?t0 + of_nat k * ?I"
    if "k < length (requested_of e ?s)" for k
  proof -
    have "requested_of e ?s ! k =
        map (\<lambda>k. ?t0 + of_nat k * ?I) [0..<length (requested_of e ?s)] ! k"
      using req by simp
    also have "\<dots> = ?t0 + of_nat k * ?I" using that by simp
    finally show ?thesis .
  qed
  have un: "unat (requested_of e ?s ! k) = unat ?t0 + k * unat ?I"
    if "k < length (requested_of e ?s)" and "unat ?t0 + k * unat ?I < 2 ^ 64" for k
    using nth[OF that(1)] unat_cadence[OF that(2)] by simp
  have adv: "thread (clock s) \<and> worker s = InCallback i r \<and>
            type (mem (clock s) i) = GST_CLOCK_ENTRY_PERIODIC \<longrightarrow>
            time (mem (clock (step p s (Dispatch first ws))) i) = r + interval (mem (clock s) i)"
    by (simp add: gst_system_clock_async_thread_step_def Let_def set_entry_simps)
  show ?thesis
    using nth cb adv un by blast
qed

text \<open>
  An instance: entry 0 is submitted, the thread is started and runs two rounds. The
  requested deadlines are 1000 and 1030; after the first callback the entry's time is
  set to 1030.
\<close>

theorem periodic_cadence_witness:
  "requested_of 0
     (run futex_platform periodic_example [WaitAsync True 0, late, late, late, late, late])
     = [1000, 1030]
   \<and> requested_of 0
     (run futex_platform periodic_example [WaitAsync True 0, late, late, late, late, late]) ! 1
     = 1000 + of_nat 1 * 30
   \<and> time (mem (clock (step futex_platform
        (run futex_platform periodic_example [WaitAsync True 0, late, late]) late)) 0)
     = 1000 + 30"
proof -
  let ?evs = "[WaitAsync True 0, late, late, late, late, late]"
  let ?s = "run futex_platform periodic_example [WaitAsync True 0, late, late]"
  have h: "type (mem (clock periodic_example) 0) = GST_CLOCK_ENTRY_PERIODIC"
    "worker periodic_example = AtLoopHead" "fired periodic_example = []"
    by (simp_all add: periodic_example_def)
  have t0: "time (mem (clock periodic_example) 0) = 1000"
    "interval (mem (clock periodic_example) 0) = 30"
    by (simp_all add: periodic_example_def)
  have req: "requested_of 0 (run futex_platform periodic_example ?evs) = [1000, 1030]"
    by (simp add: run_def requested_of_def futex_platform_def periodic_example_def late_def
        gst_system_clock_async_thread_step_def wait_async_unfold
        gst_system_clock_start_async_def set_entry_def ensure_entry_initialized_def
        gst_system_clock_id_wait_jitter_unlocked_def fire_def g_list_sort_def
        GST_CLOCK_DIFF_def Let_def word_sle_eq word_sless_alt)
  have mid: "thread (clock ?s) \<and> worker ?s = InCallback 0 1000 \<and>
      type (mem (clock ?s) 0) = GST_CLOCK_ENTRY_PERIODIC \<and> interval (mem (clock ?s) 0) = 30"
    by (simp add: run_def futex_platform_def periodic_example_def late_def
        gst_system_clock_async_thread_step_def wait_async_unfold
        gst_system_clock_start_async_def set_entry_def ensure_entry_initialized_def
        gst_system_clock_id_wait_jitter_unlocked_def fire_def
        GST_CLOCK_DIFF_def Let_def word_sle_eq word_sless_alt)
  note c = periodic_cadence[OF h, where p = futex_platform and evs = ?evs and s = ?s
      and i = 0 and r = 1000 and first = "\<lparr>now = 5000, monotonic_time = 5, relocked = None\<rparr>"
      and ws = "[]"]
  have k: "(1::nat) < length (requested_of 0 (run futex_platform periodic_example ?evs))"
    by (simp add: req)
  from c k have "requested_of 0 (run futex_platform periodic_example ?evs) ! 1 =
      1000 + of_nat 1 * 30"
    unfolding t0 by blast
  moreover from c mid
  have "time (mem (clock (step futex_platform ?s
      (Dispatch \<lparr>now = 5000, monotonic_time = 5, relocked = None\<rparr> []))) 0) = 1000 + 30"
    by simp
  ultimately show ?thesis using req by (simp add: late_def)
qed


section \<open>Insertion order and firing order\<close>





















end
